theory Spec2Isabelle
  imports Main
begin

section \<open>The map widget of osm-gps-map (src/src/osm-gps-map-widget.c)\<close>

text \<open>
  A shallow embedding of the viewport, drag, redraw and marker logic of the widget.
  Every C function is a HOL function that takes the widget state and returns the new
  one (with the C return value, where the claim needs it).

  Conventions of the embedding:
  \<^item> \<open>gint\<close>/\<open>int\<close> fields hold integers. The two computations whose operands are
    inputs of any size, the drag threshold test of \<open>osm_gps_map_motion_notify\<close> and
    the comparison \<open>osm_gps_map_image_z_compare\<close>, are done in 32-bit two's complement
    arithmetic (\<open>gint\<close> wraps a result into the range of a gint, as the compiled code
    does). The viewport arithmetic (origins, allocation sizes, world pixels) is on
    mathematical integers: it describes the executions in which it does not overflow.
    Integer division is C's, truncating towards zero (\<open>c_div\<close>).
  \<^item> \<open>gfloat\<close> is the type parameter \<open>'f\<close>: nothing is assumed about floating point.
    The functions of converter.h, which is missing, are the fields of a \<open>converter\<close>
    record passed to every function that calls them.
  \<^item> Calls into the toolkit (signals, property notifications, queued draws, layer
    rendering) are appended to \<open>host_log\<close>, in call order. The idle sources of the
    GLib main loop are the list \<open>idle_sources\<close>.
\<close>

subsection \<open>Constants and C arithmetic\<close>

definition EXTRA_BORDER :: int where
  "EXTRA_BORDER = 0"

definition c_div :: "int \<Rightarrow> int \<Rightarrow> int" where
  "c_div a b = sgn a * sgn b * (\<bar>a\<bar> div \<bar>b\<bar>)"

text \<open>The value a 32-bit \<open>gint\<close> holds after a computation whose mathematical result is
  \<open>x\<close>: \<open>x\<close> itself between \<open>-2^31\<close> and \<open>2^31 - 1\<close>, wrapped around otherwise.\<close>

definition gint :: "int \<Rightarrow> int" where
  "gint x = (x + 2147483648) mod 4294967296 - 2147483648"

text \<open>GLib's \<open>CLAMP(x, low, high)\<close> macro:
  \<open>(((x) > (high)) ? (high) : (((x) < (low)) ? (low) : (x)))\<close>.\<close>

definition CLAMP :: "int \<Rightarrow> int \<Rightarrow> int \<Rightarrow> int" where
  "CLAMP x low high = (if x > high then high else if x < low then low else x)"

subsection \<open>Data\<close>

text \<open>Modelled from the spec: OsmGpsMapPoint, whose declaration (osm-gps-map-point.h) is
  missing. The spec's GeoPoint is a latitude and a longitude in radians; the field names
  are the ones the widget uses (\<open>pt->rlat\<close>, \<open>pt->rlon\<close>).\<close>

record 'f OsmGpsMapPoint =
  rlat :: 'f
  rlon :: 'f

text \<open>The functions of converter.h, which is missing: degrees to radians, and the
  projection between radians and world pixels at a zoom level. They are parameters of
  the embedding: every theorem holds for all of them.\<close>

record 'f converter =
  deg2rad :: "'f \<Rightarrow> 'f"
  lon2pixel :: "int \<Rightarrow> 'f \<Rightarrow> int"
  lat2pixel :: "int \<Rightarrow> 'f \<Rightarrow> int"
  pixel2lon :: "int \<Rightarrow> int \<Rightarrow> 'f"
  pixel2lat :: "int \<Rightarrow> int \<Rightarrow> 'f"

record GdkPixbuf =
  pixbuf_width :: int
  pixbuf_height :: int

text \<open>Modelled from the spec: OsmGpsMapImage, whose class (osm-gps-map-image.c) is
  missing. The spec's Marker is an anchor point, an opaque bitmap, an x and a y alignment
  and an integer z-order, and these are what the widget passes to \<open>g_object_new\<close> and
  reads back through the getters. \<open>image_id\<close> is the identity of the object (the number
  of objects created before it). \<open>osm_gps_map_image_draw\<close> stores the pixbuf's width
  and height in the rectangle it is given.\<close>

record 'f OsmGpsMapImage =
  image_id :: nat
  image_pixbuf :: GdkPixbuf
  image_point :: "'f OsmGpsMapPoint"
  image_xalign :: 'f
  image_yalign :: 'f
  image_zorder :: int

text \<open>Modelled from the spec: OsmGpsMapLayer, whose interface (osm-gps-map-layer.c) is
  missing. The spec's overlay layer has three capabilities: render, handle a button press
  (answering whether it consumed it) and is_busy. The record holds the layer's identity,
  what \<open>osm_gps_map_layer_busy\<close> answers and what \<open>osm_gps_map_layer_button_press\<close>
  answers; a render is an entry of the toolkit log.\<close>

record OsmGpsMapLayer =
  layer_id :: nat
  layer_busy :: bool
  layer_consumes_press :: bool

datatype draw_op =
  FillWhite int int int int
  | DrawImage nat int int

text \<open>The cairo surface \<open>priv->pixmap\<close>: its size and what has been painted on it.\<close>

record surface =
  surf_width :: int
  surf_height :: int
  surf_ops :: "draw_op list"

datatype host_call =
  Signal_changed
  | Notify string
  | QueueDraw
  | QueueDrawArea int int int int
  | LayerRender nat

datatype idle_callback = MapRedraw | IdleExpose

text \<open>\<open>struct _OsmGpsMapPrivate\<close>. The fields none of the functions below reads or
  writes (null_tile, the GPS glyph radii, the key bindings, and the flags
  map_auto_download_enabled, trip_history_show_enabled, gps_point_enabled, is_disposed,
  is_fullscreen, is_google) are left out.\<close>

record 'f OsmGpsMapPrivate =
  map_zoom :: int
  max_zoom :: int
  min_zoom :: int
  tile_zoom_offset :: int
  map_x :: int
  map_y :: int
  map_auto_center_threshold :: 'f
  center_rlat :: 'f
  center_rlon :: 'f
  redraw_cycle :: nat
  idle_map_redraw :: nat
  trip_history :: "'f OsmGpsMapPoint list"
  gps_heading :: 'f
  gps :: "'f OsmGpsMapPoint"
  images :: "'f OsmGpsMapImage list"
  pixmap :: "surface option"
  layers :: "OsmGpsMapLayer list"
  drag_counter :: int
  drag_mouse_dx :: int
  drag_mouse_dy :: int
  drag_start_mouse_x :: int
  drag_start_mouse_y :: int
  drag_start_map_x :: int
  drag_start_map_y :: int
  drag_limit :: int
  drag_expose_source :: nat
  drag_point :: "'f OsmGpsMapPoint option"
  map_auto_center_enabled :: bool
  trip_history_record_enabled :: bool
  is_dragging :: bool
  is_button_down :: bool
  is_dragging_point :: bool
  is_constructed :: bool

text \<open>The widget: the private struct, and what the toolkit holds for it: the allocation,
  the log of calls made into the toolkit, the pending idle sources of the main loop with
  the last source id handed out, and the number of GObjects created so far.\<close>

record 'f OsmGpsMap = "'f OsmGpsMapPrivate" +
  alloc_width :: int
  alloc_height :: int
  host_log :: "host_call list"
  idle_sources :: "(nat \<times> idle_callback) list"
  last_source_id :: nat
  objects_created :: nat

subsection \<open>The toolkit and the main loop\<close>

definition host :: "host_call \<Rightarrow> 'f OsmGpsMap \<Rightarrow> 'f OsmGpsMap" where
  "host c s = s\<lparr>host_log := host_log s @ [c]\<rparr>"

text \<open>\<open>g_idle_add\<close>: a new source with a fresh id, which is never 0, at the end of the
  pending sources.\<close>

definition g_idle_add :: "idle_callback \<Rightarrow> 'f OsmGpsMap \<Rightarrow> nat \<times> 'f OsmGpsMap" where
  "g_idle_add cb s =
     (let i = Suc (last_source_id s)
      in (i, s\<lparr>idle_sources := idle_sources s @ [(i, cb)], last_source_id := i\<rparr>))"

subsection \<open>Scene composer\<close>

definition draw_white_rectangle :: "int \<Rightarrow> int \<Rightarrow> int \<Rightarrow> int \<Rightarrow> surface \<Rightarrow> surface" where
  "draw_white_rectangle x y width height cr = cr\<lparr>surf_ops := surf_ops cr @ [FillWhite x y width height]\<rparr>"

text \<open>The loop of \<open>osm_gps_map_print_images\<close>: the surface, and the running
  (min_x, min_y, max_x, max_y).\<close>

fun print_images_loop ::
  "'f converter \<Rightarrow> int \<Rightarrow> int \<Rightarrow> int \<Rightarrow> 'f OsmGpsMapImage list \<Rightarrow>
     surface \<times> int \<times> int \<times> int \<times> int \<Rightarrow> surface \<times> int \<times> int \<times> int \<times> int" where
  "print_images_loop cv zoom map_x0 map_y0 [] acc = acc"
| "print_images_loop cv zoom map_x0 map_y0 (im # list) (cr, min_x, min_y, max_x, max_y) =
     (let pt = image_point im;
          loc_x = lon2pixel cv zoom (rlon pt) - map_x0;
          loc_y = lat2pixel cv zoom (rlat pt) - map_y0;
          cr' = cr\<lparr>surf_ops := surf_ops cr @ [DrawImage (image_id im) loc_x loc_y]\<rparr>;
          loc_width = pixbuf_width (image_pixbuf im);
          loc_height = pixbuf_height (image_pixbuf im)
      in print_images_loop cv zoom map_x0 map_y0 list
           (cr', min (loc_x - loc_width) min_x, min (loc_y - loc_height) min_y,
            max (loc_x + loc_width) max_x, max (loc_y + loc_height) max_y))"

definition osm_gps_map_print_images ::
  "'f converter \<Rightarrow> surface \<Rightarrow> 'f OsmGpsMap \<Rightarrow> surface \<times> 'f OsmGpsMap" where
  "osm_gps_map_print_images cv cr s =
     (let map_x0 = map_x s - EXTRA_BORDER;
          map_y0 = map_y s - EXTRA_BORDER
      in case print_images_loop cv (map_zoom s) map_x0 map_y0 (images s) (cr, 0, 0, 0, 0) of
           (cr', min_x, min_y, max_x, max_y) \<Rightarrow>
             (cr', host (QueueDrawArea (min_x + EXTRA_BORDER) (min_y + EXTRA_BORDER)
                          (max_x + EXTRA_BORDER) (max_y + EXTRA_BORDER)) s))"

fun render_layers :: "OsmGpsMapLayer list \<Rightarrow> 'f OsmGpsMap \<Rightarrow> 'f OsmGpsMap" where
  "render_layers [] s = s"
| "render_layers (layer # list) s = render_layers list (host (LayerRender (layer_id layer)) s)"

fun any_layer_busy :: "OsmGpsMapLayer list \<Rightarrow> bool" where
  "any_layer_busy [] = False"
| "any_layer_busy (layer # list) = (if layer_busy layer then True else any_layer_busy list)"

text \<open>\<open>osm_gps_map_map_redraw\<close>. It always returns FALSE, so the model returns the
  state only. Both \<open>w\<close> and \<open>h\<close> are read with gtk_widget_get_allocated_width.\<close>

definition osm_gps_map_map_redraw :: "'f converter \<Rightarrow> 'f OsmGpsMap \<Rightarrow> 'f OsmGpsMap" where
  "osm_gps_map_map_redraw cv s0 =
     (let s = s0\<lparr>idle_map_redraw := 0\<rparr>
      in case pixmap s of
           None \<Rightarrow> s
         | Some cr \<Rightarrow>
             if any_layer_busy (layers s) then s
             else if is_dragging s then s
             else
               (let s1 = s\<lparr>drag_mouse_dx := 0, drag_mouse_dy := 0\<rparr>;
                    s2 = s1\<lparr>redraw_cycle := (redraw_cycle s1 + 1) mod 2 ^ 32\<rparr>;
                    w = alloc_width s2;
                    h = alloc_width s2;
                    cr1 = draw_white_rectangle 0 0 (w + EXTRA_BORDER * 2) (h + EXTRA_BORDER * 2) cr;
                    (cr2, s3) = osm_gps_map_print_images cv cr1 s2;
                    s4 = s3\<lparr>pixmap := Some cr2\<rparr>;
                    s5 = render_layers (layers s4) s4
                in host QueueDraw s5))"

subsection \<open>Redraw scheduler\<close>

definition osm_gps_map_map_redraw_idle :: "'f OsmGpsMap \<Rightarrow> 'f OsmGpsMap" where
  "osm_gps_map_map_redraw_idle s =
     (if idle_map_redraw s = 0
      then (case g_idle_add MapRedraw s of (i, s') \<Rightarrow> s'\<lparr>idle_map_redraw := i\<rparr>)
      else s)"

subsection \<open>Viewport state\<close>

text \<open>\<open>osm_gps_map_set_zoom\<close>: the returned zoom and the new state.\<close>

definition osm_gps_map_set_zoom ::
  "'f converter \<Rightarrow> 'f OsmGpsMap \<Rightarrow> int \<Rightarrow> int \<times> 'f OsmGpsMap" where
  "osm_gps_map_set_zoom cv s zoom =
     (if zoom \<noteq> map_zoom s then
        (let width_center = c_div (alloc_width s) 2;
             height_center = c_div (alloc_height s) 2;
             s1 = s\<lparr>map_zoom := CLAMP zoom (min_zoom s) (max_zoom s)\<rparr>;
             s2 = s1\<lparr>map_x := lon2pixel cv (map_zoom s1) (center_rlon s1) - width_center\<rparr>;
             s3 = s2\<lparr>map_y := lat2pixel cv (map_zoom s2) (center_rlat s2) - height_center\<rparr>;
             s4 = osm_gps_map_map_redraw_idle s3;
             s5 = host Signal_changed s4;
             s6 = host (Notify ''zoom'') s5
         in (map_zoom s6, s6))
      else (map_zoom s, s))"


text \<open>\<open>center_coord_update\<close>: recompute center_rlat and center_rlon after a change
  of map_x or map_y.\<close>

definition center_coord_update :: "'f converter \<Rightarrow> 'f OsmGpsMap \<Rightarrow> 'f OsmGpsMap" where
  "center_coord_update cv s =
     (let pixel_x = map_x s + c_div (alloc_width s) 2;
          pixel_y = map_y s + c_div (alloc_height s) 2;
          s1 = s\<lparr>center_rlon := pixel2lon cv (map_zoom s) pixel_x\<rparr>;
          s2 = s1\<lparr>center_rlat := pixel2lat cv (map_zoom s1) pixel_y\<rparr>
      in host Signal_changed s2)"

text \<open>\<open>maybe_autocenter_map\<close>.\<close>

definition maybe_autocenter_map :: "'f converter \<Rightarrow> 'f OsmGpsMap \<Rightarrow> 'f OsmGpsMap" where
  "maybe_autocenter_map cv s =
     (if map_auto_center_enabled s then
        (let pixel_x = lon2pixel cv (map_zoom s) (rlon (gps s));
             pixel_y = lat2pixel cv (map_zoom s) (rlat (gps s));
             x = pixel_x - map_x s;
             y = pixel_y - map_y s;
             width = alloc_width s;
             height = alloc_height s
         in if x < c_div width 2 - c_div width 8 \<or> x > c_div width 2 + c_div width 8 \<or>
               y < c_div height 2 - c_div height 8 \<or> y > c_div height 2 + c_div height 8
            then
              (let s1 = s\<lparr>map_x := pixel_x - c_div (alloc_width s) 2\<rparr>;
                   s2 = s1\<lparr>map_y := pixel_y - c_div (alloc_height s1) 2\<rparr>
               in center_coord_update cv s2)
            else s)
      else s)"

subsection \<open>Properties of the GObject\<close>

datatype 'f property =
  PROP_AUTO_CENTER bool
  | PROP_RECORD_TRIP_HISTORY bool
  | PROP_ZOOM int
  | PROP_MAX_ZOOM int
  | PROP_MIN_ZOOM int
  | PROP_MAP_X int
  | PROP_MAP_Y int
  | PROP_DRAG_LIMIT int
  | PROP_AUTO_CENTER_THRESHOLD 'f

text \<open>\<open>osm_gps_map_set_property\<close>, for the properties whose fields the model has.\<close>

fun osm_gps_map_set_property ::
  "'f converter \<Rightarrow> 'f OsmGpsMap \<Rightarrow> 'f property \<Rightarrow> 'f OsmGpsMap" where
  "osm_gps_map_set_property cv s (PROP_AUTO_CENTER v) = s\<lparr>map_auto_center_enabled := v\<rparr>"
| "osm_gps_map_set_property cv s (PROP_RECORD_TRIP_HISTORY v) = s\<lparr>trip_history_record_enabled := v\<rparr>"
| "osm_gps_map_set_property cv s (PROP_ZOOM v) = s\<lparr>map_zoom := v\<rparr>"
| "osm_gps_map_set_property cv s (PROP_MAX_ZOOM v) = s\<lparr>max_zoom := v\<rparr>"
| "osm_gps_map_set_property cv s (PROP_MIN_ZOOM v) = s\<lparr>min_zoom := v\<rparr>"
| "osm_gps_map_set_property cv s (PROP_MAP_X v) = center_coord_update cv (s\<lparr>map_x := v\<rparr>)"
| "osm_gps_map_set_property cv s (PROP_MAP_Y v) = center_coord_update cv (s\<lparr>map_y := v\<rparr>)"
| "osm_gps_map_set_property cv s (PROP_DRAG_LIMIT v) = s\<lparr>drag_limit := v\<rparr>"
| "osm_gps_map_set_property cv s (PROP_AUTO_CENTER_THRESHOLD v) = s\<lparr>map_auto_center_threshold := v\<rparr>"

fun property_name :: "'f property \<Rightarrow> string" where
  "property_name (PROP_AUTO_CENTER v) = ''auto-center''"
| "property_name (PROP_RECORD_TRIP_HISTORY v) = ''record-trip-history''"
| "property_name (PROP_ZOOM v) = ''zoom''"
| "property_name (PROP_MAX_ZOOM v) = ''max-zoom''"
| "property_name (PROP_MIN_ZOOM v) = ''min-zoom''"
| "property_name (PROP_MAP_X v) = ''map-x''"
| "property_name (PROP_MAP_Y v) = ''map-y''"
| "property_name (PROP_DRAG_LIMIT v) = ''drag-limit''"
| "property_name (PROP_AUTO_CENTER_THRESHOLD v) = ''auto-center-threshold''"

text \<open>\<open>g_object_set\<close> on the widget: the class's set_property, then the property's
  notify signal.\<close>

definition g_object_set :: "'f converter \<Rightarrow> 'f OsmGpsMap \<Rightarrow> 'f property \<Rightarrow> 'f OsmGpsMap" where
  "g_object_set cv s p = host (Notify (property_name p)) (osm_gps_map_set_property cv s p)"

subsection \<open>Coordinate conversion on the widget\<close>

text \<open>\<open>osm_gps_map_convert_screen_to_geographic\<close>: \<open>pt\<close> is the out argument, None
  for a NULL pointer (g_return_if_fail leaves then).\<close>

definition osm_gps_map_convert_screen_to_geographic ::
  "'f converter \<Rightarrow> 'f OsmGpsMap \<Rightarrow> int \<Rightarrow> int \<Rightarrow> 'f OsmGpsMapPoint option \<Rightarrow> 'f OsmGpsMapPoint option" where
  "osm_gps_map_convert_screen_to_geographic cv s pixel_x pixel_y pt =
     (case pt of
        None \<Rightarrow> None
      | Some p \<Rightarrow>
          (let map_x0 = map_x s - EXTRA_BORDER;
               map_y0 = map_y s - EXTRA_BORDER;
               p1 = p\<lparr>rlat := pixel2lat cv (map_zoom s) (map_y0 + pixel_y)\<rparr>;
               p2 = p1\<lparr>rlon := pixel2lon cv (map_zoom s) (map_x0 + pixel_x)\<rparr>
           in Some p2))"


subsection \<open>Drag and gesture handlers\<close>

text \<open>A button event, with the position already converted to int as \<open>(int) event->x\<close>
  does.\<close>

record GdkEventButton =
  button_x :: int
  button_y :: int

text \<open>A motion event: the position (converted to gint by the assignment), whether
  GDK_BUTTON1_MASK is set in its state, and the is_hint flag. For a hint the handler asks
  the device instead: \<open>device_x\<close>, \<open>device_y\<close> and \<open>device_button1\<close> are what
  gdk_window_get_device_position answers.\<close>

record GdkEventMotion =
  motion_x :: int
  motion_y :: int
  motion_button1 :: bool
  is_hint :: bool
  device_x :: int
  device_y :: int
  device_button1 :: bool

fun press_consumed :: "OsmGpsMapLayer list \<Rightarrow> bool" where
  "press_consumed [] = False"
| "press_consumed (layer # list) = (if layer_consumes_press layer then True else press_consumed list)"

definition osm_gps_map_button_press :: "'f OsmGpsMap \<Rightarrow> GdkEventButton \<Rightarrow> 'f OsmGpsMap" where
  "osm_gps_map_button_press s event =
     (if press_consumed (layers s) then s
      else s\<lparr>is_button_down := True,
             drag_counter := 0,
             drag_start_mouse_x := button_x event,
             drag_start_mouse_y := button_y event,
             drag_start_map_x := map_x s,
             drag_start_map_y := map_y s\<rparr>)"

definition osm_gps_map_button_release ::
  "'f converter \<Rightarrow> 'f OsmGpsMap \<Rightarrow> GdkEventButton \<Rightarrow> 'f OsmGpsMap" where
  "osm_gps_map_button_release cv s event =
     (if \<not> is_button_down s then s
      else
        (let s' =
               (if is_dragging s then
                  (let s1 = s\<lparr>is_dragging := False\<rparr>;
                       s2 = s1\<lparr>map_x := drag_start_map_x s1, map_y := drag_start_map_y s1\<rparr>;
                       s3 = s2\<lparr>map_x := map_x s2 + (drag_start_mouse_x s2 - button_x event)\<rparr>;
                       s4 = s3\<lparr>map_y := map_y s3 + (drag_start_mouse_y s3 - button_y event)\<rparr>
                   in osm_gps_map_map_redraw_idle (center_coord_update cv s4))
                else s)
         in s'\<lparr>drag_counter := - 1, is_button_down := False\<rparr>))"

definition osm_gps_map_idle_expose :: "'f OsmGpsMap \<Rightarrow> 'f OsmGpsMap" where
  "osm_gps_map_idle_expose s = host QueueDraw (s\<lparr>drag_expose_source := 0\<rparr>)"

definition osm_gps_map_motion_notify ::
  "'f converter \<Rightarrow> 'f OsmGpsMap \<Rightarrow> GdkEventMotion \<Rightarrow> 'f OsmGpsMap" where
  "osm_gps_map_motion_notify cv s event =
     (if \<not> is_button_down s then s
      else if is_dragging_point s then
        osm_gps_map_map_redraw_idle
          (s\<lparr>drag_point :=
               osm_gps_map_convert_screen_to_geographic cv s (motion_x event) (motion_y event) (drag_point s)\<rparr>)
      else
        (let x = (if is_hint event then device_x event else motion_x event);
             y = (if is_hint event then device_y event else motion_y event);
             button1 = (if is_hint event then device_button1 event else motion_button1 event)
         in if \<not> button1 then s
            else if drag_counter s < 0 then s
            else if drag_counter s = 0 \<and>
                    gint (gint (gint (x - drag_start_mouse_x s) * gint (x - drag_start_mouse_x s)) +
                          gint (gint (y - drag_start_mouse_y s) * gint (y - drag_start_mouse_y s))) <
                    gint (drag_limit s * drag_limit s)
            then s
            else
              (let s1 = s\<lparr>drag_counter := gint (drag_counter s + 1)\<rparr>;
                   s2 = s1\<lparr>is_dragging := True\<rparr>;
                   s3 = (if map_auto_center_enabled s2 then g_object_set cv s2 (PROP_AUTO_CENTER False) else s2);
                   s4 = s3\<lparr>drag_mouse_dx := gint (x - drag_start_mouse_x s3)\<rparr>;
                   s5 = s4\<lparr>drag_mouse_dy := gint (y - drag_start_mouse_y s4)\<rparr>
               in if drag_expose_source s5 = 0
                  then (case g_idle_add IdleExpose s5 of (i, s6) \<Rightarrow> s6\<lparr>drag_expose_source := i\<rparr>)
                  else s5)))"



text \<open>\<open>osm_gps_map_configure\<close>: a new surface of the allocated size, the origin
  recomputed from the center, and an immediate redraw.\<close>

definition osm_gps_map_configure :: "'f converter \<Rightarrow> 'f OsmGpsMap \<Rightarrow> 'f OsmGpsMap" where
  "osm_gps_map_configure cv s =
     (let w = alloc_width s;
          h = alloc_height s;
          s1 = s\<lparr>pixmap := Some \<lparr>surf_width = w + EXTRA_BORDER * 2,
                                 surf_height = h + EXTRA_BORDER * 2, surf_ops = []\<rparr>\<rparr>;
          pixel_x = lon2pixel cv (map_zoom s1) (center_rlon s1);
          pixel_y = lat2pixel cv (map_zoom s1) (center_rlat s1);
          s2 = s1\<lparr>map_x := pixel_x - c_div w 2, map_y := pixel_y - c_div h 2\<rparr>;
          s3 = osm_gps_map_map_redraw cv s2
      in host Signal_changed s3)"

subsection \<open>GPS track state\<close>

definition osm_gps_map_gps_clear :: "'f OsmGpsMap \<Rightarrow> 'f OsmGpsMap" where
  "osm_gps_map_gps_clear s = osm_gps_map_map_redraw_idle s"

definition osm_gps_map_gps_add ::
  "'f converter \<Rightarrow> 'f OsmGpsMap \<Rightarrow> 'f \<Rightarrow> 'f \<Rightarrow> 'f \<Rightarrow> 'f OsmGpsMap" where
  "osm_gps_map_gps_add cv s latitude longitude heading =
     (let s1 = s\<lparr>gps := (gps s)\<lparr>rlat := deg2rad cv latitude\<rparr>\<rparr>;
          s2 = s1\<lparr>gps := (gps s1)\<lparr>rlon := deg2rad cv longitude\<rparr>\<rparr>;
          s3 = s2\<lparr>gps_heading := deg2rad cv heading\<rparr>;
          s4 = osm_gps_map_map_redraw_idle s3
      in maybe_autocenter_map cv s4)"

subsection \<open>Marker store\<close>





subsection \<open>One turn of the main loop\<close>

text \<open>The GLib main loop, as far as idle sources go: each pending source is dispatched
  once, in order. Both callbacks of the widget return FALSE, so a dispatched source is
  destroyed. The result is the list of the callbacks invoked and the final state.\<close>

definition g_source_destroy :: "nat \<Rightarrow> 'f OsmGpsMap \<Rightarrow> 'f OsmGpsMap" where
  "g_source_destroy i s = s\<lparr>idle_sources := filter (\<lambda>src. fst src \<noteq> i) (idle_sources s)\<rparr>"

fun invoke_idle :: "'f converter \<Rightarrow> idle_callback \<Rightarrow> 'f OsmGpsMap \<Rightarrow> 'f OsmGpsMap" where
  "invoke_idle cv MapRedraw s = osm_gps_map_map_redraw cv s"
| "invoke_idle cv IdleExpose s = osm_gps_map_idle_expose s"

fun g_main_dispatch ::
  "'f converter \<Rightarrow> (nat \<times> idle_callback) list \<Rightarrow> 'f OsmGpsMap \<Rightarrow> idle_callback list \<times> 'f OsmGpsMap" where
  "g_main_dispatch cv [] s = ([], s)"
| "g_main_dispatch cv ((i, cb) # pending) s =
     (case g_main_dispatch cv pending (g_source_destroy i (invoke_idle cv cb s)) of
        (called, s') \<Rightarrow> (cb # called, s'))"

definition g_main_context_iteration ::
  "'f converter \<Rightarrow> 'f OsmGpsMap \<Rightarrow> idle_callback list \<times> 'f OsmGpsMap" where
  "g_main_context_iteration cv s = g_main_dispatch cv (idle_sources s) s"

subsection \<open>Construction\<close>

text \<open>\<open>osm_gps_map_init\<close> on the zero-filled private struct of a widget that has no
  allocation yet (GTK's initial allocation is 1 x 1). \<open>zero\<close> is the float 0.0 and
  \<open>invalid\<close> is OSM_GPS_MAP_INVALID.\<close>

definition osm_gps_map_init :: "'f \<Rightarrow> 'f \<Rightarrow> 'f OsmGpsMap" where
  "osm_gps_map_init zero invalid =
     \<lparr>map_zoom = 0, max_zoom = 0, min_zoom = 0, tile_zoom_offset = 0, map_x = 0, map_y = 0,
      map_auto_center_threshold = zero, center_rlat = zero, center_rlon = zero,
      redraw_cycle = 0, idle_map_redraw = 0, trip_history = [], gps_heading = invalid,
      gps = \<lparr>rlat = zero, rlon = zero\<rparr>, images = [], pixmap = None, layers = [],
      drag_counter = 0, drag_mouse_dx = 0, drag_mouse_dy = 0, drag_start_mouse_x = 0,
      drag_start_mouse_y = 0, drag_start_map_x = 0, drag_start_map_y = 0, drag_limit = 0,
      drag_expose_source = 0, drag_point = None, map_auto_center_enabled = False,
      trip_history_record_enabled = False, is_dragging = False, is_button_down = False,
      is_dragging_point = False, is_constructed = False,
      alloc_width = 1, alloc_height = 1, host_log = [], idle_sources = [],
      last_source_id = 0, objects_created = 0\<rparr>"

definition osm_gps_map_setup :: "'f converter \<Rightarrow> 'f OsmGpsMap \<Rightarrow> 'f OsmGpsMap" where
  "osm_gps_map_setup cv s =
     (let s1 = s\<lparr>max_zoom := 18, min_zoom := 1\<rparr>
      in if is_constructed s1 then
           (let s2 = (if map_zoom s1 > max_zoom s1 then snd (osm_gps_map_set_zoom cv s1 (max_zoom s1)) else s1);
                s3 = (if map_zoom s2 < min_zoom s2 then snd (osm_gps_map_set_zoom cv s2 (min_zoom s2)) else s2)
            in osm_gps_map_map_redraw_idle s3)
         else s1)"

text \<open>\<open>osm_gps_map_constructor\<close>: the parent constructor sets the construct
  properties, then the setup runs.\<close>

definition osm_gps_map_constructor ::
  "'f converter \<Rightarrow> 'f \<Rightarrow> 'f \<Rightarrow> 'f property list \<Rightarrow> 'f OsmGpsMap" where
  "osm_gps_map_constructor cv zero invalid properties =
     (let s = foldl (osm_gps_map_set_property cv) (osm_gps_map_init zero invalid) properties;
          s1 = osm_gps_map_setup cv s
      in s1\<lparr>is_constructed := True\<rparr>)"

text \<open>The defaults that \<open>osm_gps_map_class_init\<close> gives the construct properties,
  in the order in which it installs them; \<open>threshold\<close> is the float 0.25. (max-zoom and
  min-zoom default to macros of a missing header; the setup overwrites both fields.)\<close>

definition default_properties :: "'f \<Rightarrow> 'f property list" where
  "default_properties threshold =
     [PROP_AUTO_CENTER True, PROP_AUTO_CENTER_THRESHOLD threshold, PROP_RECORD_TRIP_HISTORY True,
      PROP_ZOOM 3, PROP_MAP_X 890, PROP_MAP_Y 515, PROP_DRAG_LIMIT 10]"

definition osm_gps_map_new :: "'f converter \<Rightarrow> 'f \<Rightarrow> 'f \<Rightarrow> 'f \<Rightarrow> 'f OsmGpsMap" where
  "osm_gps_map_new cv zero invalid threshold =
     osm_gps_map_constructor cv zero invalid (default_properties threshold)"

text \<open>The toolkit allocates a size to the widget and delivers the configure event.\<close>

definition size_allocate :: "'f converter \<Rightarrow> int \<Rightarrow> int \<Rightarrow> 'f OsmGpsMap \<Rightarrow> 'f OsmGpsMap" where
  "size_allocate cv w h s = osm_gps_map_configure cv (s\<lparr>alloc_width := w, alloc_height := h\<rparr>)"

subsection \<open>Press-motion sequences\<close>

text \<open>The states a sequence of motion events goes through, the first state included.\<close>

fun motion_trace ::
  "'f converter \<Rightarrow> 'f OsmGpsMap \<Rightarrow> GdkEventMotion list \<Rightarrow> 'f OsmGpsMap list" where
  "motion_trace cv s [] = [s]"
| "motion_trace cv s (event # events) = s # motion_trace cv (osm_gps_map_motion_notify cv s event) events"

text \<open>The number of steps of a trace that go from a state that is not dragging to one
  that is.\<close>

fun drag_starts :: "'f OsmGpsMap list \<Rightarrow> nat" where
  "drag_starts (a # b # tr) =
     (if \<not> is_dragging a \<and> is_dragging b then 1 else 0) + drag_starts (b # tr)"
| "drag_starts tr = 0"

text \<open>The position and button state a motion event stands for: the device's for a hint,
  the event's own otherwise.\<close>

definition pointer_x :: "GdkEventMotion \<Rightarrow> int" where
  "pointer_x event = (if is_hint event then device_x event else motion_x event)"

definition pointer_y :: "GdkEventMotion \<Rightarrow> int" where
  "pointer_y event = (if is_hint event then device_y event else motion_y event)"

definition pointer_button1 :: "GdkEventMotion \<Rightarrow> bool" where
  "pointer_button1 event = (if is_hint event then device_button1 event else motion_button1 event)"

text \<open>The squared distance of the pointer from the position of the press.\<close>

definition displacement2 :: "'f OsmGpsMap \<Rightarrow> GdkEventMotion \<Rightarrow> int" where
  "displacement2 s event =
     (pointer_x event - drag_start_mouse_x s) * (pointer_x event - drag_start_mouse_x s) +
     (pointer_y event - drag_start_mouse_y s) * (pointer_y event - drag_start_mouse_y s)"

text \<open>The pointer is within 32767 pixels of the position of the press, on each axis.\<close>

definition near_press :: "'f OsmGpsMap \<Rightarrow> GdkEventMotion \<Rightarrow> bool" where
  "near_press s event =
     (\<bar>pointer_x event - drag_start_mouse_x s\<bar> \<le> 32767 \<and>
      \<bar>pointer_y event - drag_start_mouse_y s\<bar> \<le> 32767)"

text \<open>The states of the drag state machine, read off the fields: ARMED is button down,
  not dragging, counter 0; DRAGGING is button down with the dragging flag set.\<close>

definition ARMED :: "'f OsmGpsMap \<Rightarrow> bool" where
  "ARMED s = (is_button_down s \<and> \<not> is_dragging s \<and> drag_counter s = 0)"

definition DRAGGING :: "'f OsmGpsMap \<Rightarrow> bool" where
  "DRAGGING s = (is_button_down s \<and> is_dragging s \<and> drag_counter s > 0)"

subsection \<open>What is painted\<close>



subsection \<open>A concrete converter\<close>

text \<open>An instance of the parameters on which the definitions can be evaluated: floats
  are integers, and a coordinate is its own pixel at every zoom.\<close>

definition unit_converter :: "int converter" where
  "unit_converter =
     \<lparr>deg2rad = (\<lambda>d. d), lon2pixel = (\<lambda>zoom l. l), lat2pixel = (\<lambda>zoom l. l),
      pixel2lon = (\<lambda>zoom p. p), pixel2lat = (\<lambda>zoom p. p)\<rparr>"

subsection \<open>Concrete maps\<close>

text \<open>A map as \<open>osm_gps_map_new\<close> returns it, on the concrete converter (0.0 is 0,
  OSM_GPS_MAP_INVALID is -1 and the threshold 0.25 is 25), and the same map once the
  toolkit has given it 800 x 600 pixels.\<close>

definition fresh_map :: "int OsmGpsMap" where
  "fresh_map = osm_gps_map_new unit_converter 0 (- 1) 25"

definition map_800x600 :: "int OsmGpsMap" where
  "map_800x600 = size_allocate unit_converter 800 600 fresh_map"

text \<open>The 800 x 600 map after a button press at (100, 100) that no layer consumes, a
  motion event with button 1 held that is not a hint, and a 16 x 16 pixbuf.\<close>

definition pressed_map :: "int OsmGpsMap" where
  "pressed_map = osm_gps_map_button_press map_800x600 \<lparr>button_x = 100, button_y = 100\<rparr>"

definition motion_to :: "int \<Rightarrow> int \<Rightarrow> GdkEventMotion" where
  "motion_to x y =
     \<lparr>motion_x = x, motion_y = y, motion_button1 = True, is_hint = False,
      device_x = x, device_y = y, device_button1 = True\<rparr>"


text \<open>A motion event to (x, y) with button 3 held and button 1 not.\<close>

definition motion_button3_to :: "int \<Rightarrow> int \<Rightarrow> GdkEventMotion" where
  "motion_button3_to x y =
     \<lparr>motion_x = x, motion_y = y, motion_button1 = False, is_hint = False,
      device_x = x, device_y = y, device_button1 = False\<rparr>"

text \<open>A map constructed with the zoom property 20.\<close>

definition zoom20_map :: "int OsmGpsMap" where
  "zoom20_map =
     osm_gps_map_constructor unit_converter 0 (- 1)
       [PROP_AUTO_CENTER True, PROP_AUTO_CENTER_THRESHOLD 25, PROP_RECORD_TRIP_HISTORY True,
        PROP_ZOOM 20, PROP_MAP_X 890, PROP_MAP_Y 515, PROP_DRAG_LIMIT 10]"





section \<open>Properties\<close>

subsection \<open>The concrete maps, evaluated\<close>

lemma fresh_map_eq:
  "fresh_map =
    \<lparr>map_zoom = 3, max_zoom = 18, min_zoom = 1, tile_zoom_offset = 0,
    map_x = 890, map_y = 515, map_auto_center_threshold = 25,
    center_rlat = 515, center_rlon = 890, redraw_cycle = 0,
    idle_map_redraw = 0, trip_history = [], gps_heading = - 1,
    gps = \<lparr>rlat = 0, rlon = 0\<rparr>, images = [], pixmap = None, layers = [],
    drag_counter = 0, drag_mouse_dx = 0, drag_mouse_dy = 0,
    drag_start_mouse_x = 0, drag_start_mouse_y = 0, drag_start_map_x = 0,
    drag_start_map_y = 0, drag_limit = 10, drag_expose_source = 0,
    drag_point = None, map_auto_center_enabled = True,
    trip_history_record_enabled = True, is_dragging = False,
    is_button_down = False, is_dragging_point = False,
    is_constructed = True, alloc_width = 1, alloc_height = 1,
    host_log = [Signal_changed, Signal_changed], idle_sources = [],
    last_source_id = 0, objects_created = 0\<rparr>"
  by (simp add: fresh_map_def osm_gps_map_new_def osm_gps_map_constructor_def default_properties_def
      osm_gps_map_init_def osm_gps_map_setup_def center_coord_update_def host_def Let_def
      unit_converter_def c_div_def)

lemma map_800x600_eq:
  "map_800x600 =
    \<lparr>map_zoom = 3, max_zoom = 18, min_zoom = 1, tile_zoom_offset = 0,
    map_x = 490, map_y = 215, map_auto_center_threshold = 25,
    center_rlat = 515, center_rlon = 890, redraw_cycle = 1,
    idle_map_redraw = 0, trip_history = [], gps_heading = - 1,
    gps = \<lparr>rlat = 0, rlon = 0\<rparr>, images = [],
    pixmap = Some \<lparr>surf_width = 800, surf_height = 600, surf_ops = [FillWhite 0 0 800 800]\<rparr>,
    layers = [],
    drag_counter = 0, drag_mouse_dx = 0, drag_mouse_dy = 0,
    drag_start_mouse_x = 0, drag_start_mouse_y = 0, drag_start_map_x = 0,
    drag_start_map_y = 0, drag_limit = 10, drag_expose_source = 0,
    drag_point = None, map_auto_center_enabled = True,
    trip_history_record_enabled = True, is_dragging = False,
    is_button_down = False, is_dragging_point = False,
    is_constructed = True, alloc_width = 800, alloc_height = 600,
    host_log = [Signal_changed, Signal_changed, QueueDrawArea 0 0 0 0, QueueDraw, Signal_changed],
    idle_sources = [], last_source_id = 0, objects_created = 0\<rparr>"
  by (simp add: map_800x600_def fresh_map_eq size_allocate_def osm_gps_map_configure_def
      osm_gps_map_map_redraw_def osm_gps_map_print_images_def draw_white_rectangle_def host_def
      Let_def EXTRA_BORDER_def unit_converter_def c_div_def)

lemma pressed_map_fields:
  "ARMED pressed_map" "\<not> is_dragging_point pressed_map" "drag_limit pressed_map = 10"
  "drag_start_mouse_x pressed_map = 100" "drag_start_mouse_y pressed_map = 100"
  "map_auto_center_enabled pressed_map"
  by (simp_all add: pressed_map_def osm_gps_map_button_press_def map_800x600_eq ARMED_def)

subsection \<open>Zoom\<close>

lemma CLAMP_range: "low \<le> high \<Longrightarrow> low \<le> CLAMP x low high \<and> CLAMP x low high \<le> high"
  by (simp add: CLAMP_def)

lemma set_zoom_result:
  "fst (osm_gps_map_set_zoom cv s zoom) =
     (if zoom \<noteq> map_zoom s then CLAMP zoom (min_zoom s) (max_zoom s) else map_zoom s)"
  by (simp add: osm_gps_map_set_zoom_def Let_def host_def osm_gps_map_map_redraw_idle_def
      g_idle_add_def)

text \<open>Every constructed map has min_zoom 1 and max_zoom 18, whatever the construct
  properties are: the setup overwrites both. The zoom property is stored as it is given.\<close>

lemma set_property_not_constructed:
  "is_constructed (osm_gps_map_set_property cv s p) = is_constructed s"
  by (cases p) (simp_all add: center_coord_update_def host_def Let_def)

lemma set_properties_not_constructed:
  "is_constructed (foldl (osm_gps_map_set_property cv) s ps) = is_constructed s"
  by (induction ps arbitrary: s) (simp_all add: set_property_not_constructed)

lemma constructor_zoom_bounds:
  "min_zoom (osm_gps_map_constructor cv zero invalid ps) = 1"
  "max_zoom (osm_gps_map_constructor cv zero invalid ps) = 18"
proof -
  have "\<not> is_constructed (foldl (osm_gps_map_set_property cv) (osm_gps_map_init zero invalid) ps)"
    by (simp add: set_properties_not_constructed) (simp add: osm_gps_map_init_def)
  then show "min_zoom (osm_gps_map_constructor cv zero invalid ps) = 1"
    and "max_zoom (osm_gps_map_constructor cv zero invalid ps) = 18"
    by (simp_all add: osm_gps_map_constructor_def osm_gps_map_setup_def Let_def)
qed

lemma zoom20_map_fields:
  "min_zoom zoom20_map = 1" "max_zoom zoom20_map = 18" "map_zoom zoom20_map = 20"
  by (simp_all add: zoom20_map_def osm_gps_map_constructor_def osm_gps_map_init_def
      osm_gps_map_setup_def center_coord_update_def host_def Let_def)

text \<open>
  C1, as amended. On a map with min_zoom \<le> max_zoom (every constructed map has 1 and 18),
  \<open>osm_gps_map_set_zoom\<close> returns, for every requested integer zoom that differs from
  the current zoom, the request clamped to [min_zoom, max_zoom], a value in that interval,
  which is also the zoom the map then has. When the requested zoom equals the current
  zoom the call is a no-op: the whole state is returned unchanged (no idle redraw is
  added, nothing is appended to the log of signals and notifications, no field changes)
  and the value returned is the current zoom, not clamped.
\<close>

theorem set_zoom_clamps_and_is_noop_when_equal:
  assumes "min_zoom s \<le> max_zoom s"
  shows "(zoom \<noteq> map_zoom s \<longrightarrow>
            fst (osm_gps_map_set_zoom cv s zoom) = CLAMP zoom (min_zoom s) (max_zoom s)
          \<and> min_zoom s \<le> fst (osm_gps_map_set_zoom cv s zoom)
          \<and> fst (osm_gps_map_set_zoom cv s zoom) \<le> max_zoom s
          \<and> map_zoom (snd (osm_gps_map_set_zoom cv s zoom)) = fst (osm_gps_map_set_zoom cv s zoom))
       \<and> (zoom = map_zoom s \<longrightarrow> osm_gps_map_set_zoom cv s zoom = (map_zoom s, s))"
proof -
  have r: "zoom \<noteq> map_zoom s \<longrightarrow>
      fst (osm_gps_map_set_zoom cv s zoom) = CLAMP zoom (min_zoom s) (max_zoom s)"
    by (simp add: set_zoom_result)
  have st: "map_zoom (snd (osm_gps_map_set_zoom cv s zoom)) = fst (osm_gps_map_set_zoom cv s zoom)"
    by (simp add: osm_gps_map_set_zoom_def Let_def)
  have noop: "zoom = map_zoom s \<longrightarrow> osm_gps_map_set_zoom cv s zoom = (map_zoom s, s)"
    by (simp add: osm_gps_map_set_zoom_def)
  from r CLAMP_range [OF assms, of zoom] st noop show ?thesis by simp
qed

theorem set_zoom_clamps_and_is_noop_when_equal_witness:
  "min_zoom fresh_map = 1 \<and> map_zoom fresh_map = 3 \<and> max_zoom fresh_map = 18
   \<and> fst (osm_gps_map_set_zoom unit_converter fresh_map 25) = 18
   \<and> fst (osm_gps_map_set_zoom unit_converter fresh_map (- 4)) = 1
   \<and> fst (osm_gps_map_set_zoom unit_converter fresh_map 7) = 7
   \<and> osm_gps_map_set_zoom unit_converter fresh_map 3 = (3, fresh_map)
   \<and> osm_gps_map_set_zoom unit_converter zoom20_map 20 = (20, zoom20_map)
   \<and> fst (osm_gps_map_set_zoom unit_converter zoom20_map 19) = 18"
proof -
  have a: "min_zoom fresh_map \<le> max_zoom fresh_map" by (simp add: fresh_map_eq)
  have b: "min_zoom zoom20_map \<le> max_zoom zoom20_map" by (simp add: zoom20_map_fields)
  from set_zoom_clamps_and_is_noop_when_equal [OF a, of 25 unit_converter]
    set_zoom_clamps_and_is_noop_when_equal [OF a, of "- 4" unit_converter]
    set_zoom_clamps_and_is_noop_when_equal [OF a, of 7 unit_converter]
    set_zoom_clamps_and_is_noop_when_equal [OF a, of 3 unit_converter]
    set_zoom_clamps_and_is_noop_when_equal [OF b, of 20 unit_converter]
    set_zoom_clamps_and_is_noop_when_equal [OF b, of 19 unit_converter]
  show ?thesis
    by (simp add: fresh_map_eq zoom20_map_fields CLAMP_def)
qed

text \<open>
  C1, as stated, fails: the result is not in [min_zoom, max_zoom] for every request. A
  map constructed with the zoom property 20 has min_zoom 1, max_zoom 18 and map_zoom 20,
  and a request for zoom 20 returns 20.
\<close>

theorem set_zoom_equal_request_counterexample:
  "min_zoom zoom20_map = 1 \<and> max_zoom zoom20_map = 18 \<and> map_zoom zoom20_map = 20
   \<and> fst (osm_gps_map_set_zoom unit_converter zoom20_map 20) = 20
   \<and> max_zoom zoom20_map < fst (osm_gps_map_set_zoom unit_converter zoom20_map 20)"
  by (simp add: zoom20_map_fields osm_gps_map_set_zoom_def)

subsection \<open>Scene composer\<close>

lemma render_layers_eq:
  "render_layers ls s = s\<lparr>host_log := host_log s @ map (\<lambda>l. LayerRender (layer_id l)) ls\<rparr>"
  by (induction ls arbitrary: s) (simp_all add: host_def)


lemma print_images_state:
  "\<exists>c. snd (osm_gps_map_print_images cv cr s) = host c s"
  by (auto simp add: osm_gps_map_print_images_def Let_def split: prod.splits)

lemma print_images_loop_surface:
  "\<exists>ops. fst (print_images_loop cv z x0 y0 ims (cr, a, b, c, d)) = cr\<lparr>surf_ops := surf_ops cr @ ops\<rparr>"
proof (induction ims arbitrary: cr a b c d)
  case Nil
  show ?case by (rule exI [of _ "[]"]) simp
next
  case (Cons im ims)
  let ?op = "DrawImage (image_id im) (lon2pixel cv z (rlon (image_point im)) - x0)
               (lat2pixel cv z (rlat (image_point im)) - y0)"
  let ?cr = "cr\<lparr>surf_ops := surf_ops cr @ [?op]\<rparr>"
  obtain ops where
    "fst (print_images_loop cv z x0 y0 ims
        (?cr, min (lon2pixel cv z (rlon (image_point im)) - x0 - pixbuf_width (image_pixbuf im)) a,
         min (lat2pixel cv z (rlat (image_point im)) - y0 - pixbuf_height (image_pixbuf im)) b,
         max (lon2pixel cv z (rlon (image_point im)) - x0 + pixbuf_width (image_pixbuf im)) c,
         max (lat2pixel cv z (rlat (image_point im)) - y0 + pixbuf_height (image_pixbuf im)) d))
     = ?cr\<lparr>surf_ops := surf_ops ?cr @ ops\<rparr>"
    using Cons by blast
  then have "fst (print_images_loop cv z x0 y0 (im # ims) (cr, a, b, c, d))
     = cr\<lparr>surf_ops := surf_ops cr @ (?op # ops)\<rparr>"
    by (simp add: Let_def)
  then show ?case by blast
qed

lemma print_images_surface:
  "\<exists>ops. fst (osm_gps_map_print_images cv cr s) = cr\<lparr>surf_ops := surf_ops cr @ ops\<rparr>"
proof -
  obtain ops where
    "fst (print_images_loop cv (map_zoom s) (map_x s - EXTRA_BORDER) (map_y s - EXTRA_BORDER)
        (images s) (cr, 0, 0, 0, 0)) = cr\<lparr>surf_ops := surf_ops cr @ ops\<rparr>"
    using print_images_loop_surface by blast
  then have "fst (osm_gps_map_print_images cv cr s) = cr\<lparr>surf_ops := surf_ops cr @ ops\<rparr>"
    by (simp add: osm_gps_map_print_images_def Let_def split_beta)
  then show ?thesis by blast
qed

text \<open>The redraw, when it proceeds.\<close>

lemma map_redraw_proceeds:
  assumes "pixmap s = Some cr" and "\<not> any_layer_busy (layers s)" and "\<not> is_dragging s"
  shows "\<exists>ops log.
     osm_gps_map_map_redraw cv s =
       s\<lparr>idle_map_redraw := 0, drag_mouse_dx := 0, drag_mouse_dy := 0,
         redraw_cycle := (redraw_cycle s + 1) mod 2 ^ 32,
         pixmap := Some (cr\<lparr>surf_ops := surf_ops cr @
            FillWhite 0 0 (alloc_width s + EXTRA_BORDER * 2) (alloc_width s + EXTRA_BORDER * 2) # ops\<rparr>),
         host_log := host_log s @ log\<rparr>"
proof -
  let ?s2 = "s\<lparr>idle_map_redraw := 0, drag_mouse_dx := 0, drag_mouse_dy := 0,
         redraw_cycle := (redraw_cycle s + 1) mod 2 ^ 32\<rparr>"
  let ?cr1 = "draw_white_rectangle 0 0 (alloc_width s + EXTRA_BORDER * 2) (alloc_width s + EXTRA_BORDER * 2) cr"
  obtain ops where ops: "fst (osm_gps_map_print_images cv ?cr1 ?s2) = ?cr1\<lparr>surf_ops := surf_ops ?cr1 @ ops\<rparr>"
    using print_images_surface by blast
  obtain c where c: "snd (osm_gps_map_print_images cv ?cr1 ?s2) = host c ?s2"
    using print_images_state by blast
  have "osm_gps_map_map_redraw cv s =
       s\<lparr>idle_map_redraw := 0, drag_mouse_dx := 0, drag_mouse_dy := 0,
         redraw_cycle := (redraw_cycle s + 1) mod 2 ^ 32,
         pixmap := Some (cr\<lparr>surf_ops := surf_ops cr @
            FillWhite 0 0 (alloc_width s + EXTRA_BORDER * 2) (alloc_width s + EXTRA_BORDER * 2) # ops\<rparr>),
         host_log := host_log s @ (c # map (\<lambda>l. LayerRender (layer_id l)) (layers s) @ [QueueDraw])\<rparr>"
    using assms ops c
    by (simp add: osm_gps_map_map_redraw_def Let_def render_layers_eq host_def
        draw_white_rectangle_def split_beta)
  then show ?thesis by blast
qed

lemma map_redraw_skips:
  assumes "pixmap s = None \<or> any_layer_busy (layers s) \<or> is_dragging s"
  shows "osm_gps_map_map_redraw cv s = s\<lparr>idle_map_redraw := 0\<rparr>"
  using assms by (auto simp add: osm_gps_map_map_redraw_def Let_def split: option.splits)



text \<open>
  C9 (the redraw clears the full allocated width x height region) does not hold of the
  code as written. On a widget allocated 600 pixels wide and 800 pixels high the
  configure handler creates a 600 x 800 surface and redraws at once; the redraw fills the
  white rectangle (0, 0, 600, 600) only, because it reads the height with
  gtk_widget_get_allocated_width. The lower 600 x 200 pixels of the surface are not
  cleared.
\<close>

theorem map_redraw_clears_width_by_width:
  "pixmap (size_allocate unit_converter 600 800 fresh_map) =
     Some \<lparr>surf_width = 600, surf_height = 800, surf_ops = [FillWhite 0 0 600 600]\<rparr>"
  by (simp add: fresh_map_eq size_allocate_def osm_gps_map_configure_def osm_gps_map_map_redraw_def
      osm_gps_map_print_images_def draw_white_rectangle_def host_def Let_def EXTRA_BORDER_def
      unit_converter_def c_div_def)

subsection \<open>GPS fixes\<close>

lemma redraw_idle_threshold:
  "osm_gps_map_map_redraw_idle (s\<lparr>map_auto_center_threshold := t\<rparr>) =
     (osm_gps_map_map_redraw_idle s)\<lparr>map_auto_center_threshold := t\<rparr>"
  by (simp add: osm_gps_map_map_redraw_idle_def g_idle_add_def Let_def)

lemma maybe_autocenter_threshold:
  "maybe_autocenter_map cv (s\<lparr>map_auto_center_threshold := t\<rparr>) =
     (maybe_autocenter_map cv s)\<lparr>map_auto_center_threshold := t\<rparr>"
  by (simp add: maybe_autocenter_map_def center_coord_update_def host_def Let_def)

lemma gps_add_threshold:
  "osm_gps_map_gps_add cv (s\<lparr>map_auto_center_threshold := t\<rparr>) latitude longitude heading =
     (osm_gps_map_gps_add cv s latitude longitude heading)\<lparr>map_auto_center_threshold := t\<rparr>"
proof -
  let ?s3 = "s\<lparr>gps := (gps s)\<lparr>rlat := deg2rad cv latitude, rlon := deg2rad cv longitude\<rparr>,
               gps_heading := deg2rad cv heading\<rparr>"
  have a: "osm_gps_map_gps_add cv s latitude longitude heading =
      maybe_autocenter_map cv (osm_gps_map_map_redraw_idle ?s3)"
    by (simp add: osm_gps_map_gps_add_def Let_def)
  have c: "s\<lparr>map_auto_center_threshold := t,
              gps := (gps s)\<lparr>rlat := deg2rad cv latitude, rlon := deg2rad cv longitude\<rparr>,
              gps_heading := deg2rad cv heading\<rparr> = ?s3\<lparr>map_auto_center_threshold := t\<rparr>"
    by (rule OsmGpsMap.equality) simp_all
  have b: "osm_gps_map_gps_add cv (s\<lparr>map_auto_center_threshold := t\<rparr>) latitude longitude heading =
      maybe_autocenter_map cv (osm_gps_map_map_redraw_idle (?s3\<lparr>map_auto_center_threshold := t\<rparr>))"
    unfolding c [symmetric] by (simp add: osm_gps_map_gps_add_def Let_def)
  show ?thesis
    unfolding a b by (simp only: redraw_idle_threshold maybe_autocenter_threshold)
qed

text \<open>
  C10. The auto-center decision never reads map_auto_center_threshold: setting the
  auto-center-threshold property (to any value) before a GPS fix update gives the same
  state as setting it after, so two maps that differ only in that field have, after
  \<open>osm_gps_map_gps_add\<close> (which ends with \<open>maybe_autocenter_map\<close>), the same map_x,
  map_y, center_rlat and center_rlon.
\<close>

theorem autocenter_ignores_threshold:
  "osm_gps_map_gps_add cv (osm_gps_map_set_property cv s (PROP_AUTO_CENTER_THRESHOLD t)) latitude longitude heading =
     osm_gps_map_set_property cv (osm_gps_map_gps_add cv s latitude longitude heading) (PROP_AUTO_CENTER_THRESHOLD t)
   \<and> map_x (osm_gps_map_gps_add cv (s\<lparr>map_auto_center_threshold := t\<rparr>) latitude longitude heading) =
     map_x (osm_gps_map_gps_add cv s latitude longitude heading)
   \<and> map_y (osm_gps_map_gps_add cv (s\<lparr>map_auto_center_threshold := t\<rparr>) latitude longitude heading) =
     map_y (osm_gps_map_gps_add cv s latitude longitude heading)
   \<and> center_rlat (osm_gps_map_gps_add cv (s\<lparr>map_auto_center_threshold := t\<rparr>) latitude longitude heading) =
     center_rlat (osm_gps_map_gps_add cv s latitude longitude heading)
   \<and> center_rlon (osm_gps_map_gps_add cv (s\<lparr>map_auto_center_threshold := t\<rparr>) latitude longitude heading) =
     center_rlon (osm_gps_map_gps_add cv s latitude longitude heading)
   \<and> maybe_autocenter_map cv (s\<lparr>map_auto_center_threshold := t\<rparr>) =
     (maybe_autocenter_map cv s)\<lparr>map_auto_center_threshold := t\<rparr>"
  by (simp add: gps_add_threshold maybe_autocenter_threshold)

lemma redraw_idle_trip_history:
  "trip_history (osm_gps_map_map_redraw_idle s) = trip_history s"
  by (simp add: osm_gps_map_map_redraw_idle_def g_idle_add_def Let_def)

lemma maybe_autocenter_trip_history:
  "trip_history (maybe_autocenter_map cv s) = trip_history s"
  by (simp add: maybe_autocenter_map_def center_coord_update_def host_def Let_def)

lemma gps_add_trip_history:
  "trip_history (osm_gps_map_gps_add cv s latitude longitude heading) = trip_history s"
  by (simp add: osm_gps_map_gps_add_def Let_def maybe_autocenter_trip_history redraw_idle_trip_history)

lemma gps_clear_trip_history:
  "trip_history (osm_gps_map_gps_clear s) = trip_history s"
  by (simp add: osm_gps_map_gps_clear_def redraw_idle_trip_history)

text \<open>
  C7 (with recording enabled the trip history grows with every GPS fix, and the clear
  call empties it) does not hold of the code as written. A freshly constructed map, on
  which record-trip-history is TRUE and the trip history is empty, receives the GPS fix
  (10, 20) with heading 0. The trip history is still empty afterwards:
  \<open>osm_gps_map_gps_add\<close> never appends to it, and neither it nor
  \<open>osm_gps_map_gps_clear\<close> writes the field at all (the two lemmas above).
\<close>

theorem gps_add_records_nothing:
  "trip_history_record_enabled fresh_map
   \<and> trip_history fresh_map = []
   \<and> trip_history (osm_gps_map_gps_add unit_converter fresh_map 10 20 0) = []"
  by (simp add: gps_add_trip_history) (simp add: fresh_map_eq)

subsection \<open>Auto-centering\<close>





subsection \<open>Redraw scheduler\<close>

lemma redraw_idle_schedules:
  assumes "idle_map_redraw s = 0"
  shows "osm_gps_map_map_redraw_idle s =
           s\<lparr>idle_sources := idle_sources s @ [(Suc (last_source_id s), MapRedraw)],
             last_source_id := Suc (last_source_id s),
             idle_map_redraw := Suc (last_source_id s)\<rparr>"
  using assms by (simp add: osm_gps_map_map_redraw_idle_def g_idle_add_def Let_def)

lemma redraw_idle_pending:
  assumes "idle_map_redraw s \<noteq> 0"
  shows "osm_gps_map_map_redraw_idle s = s"
  using assms by (simp add: osm_gps_map_map_redraw_idle_def)

lemma redraw_idle_repeated:
  assumes "idle_map_redraw s = 0"
  shows "(osm_gps_map_map_redraw_idle ^^ Suc n) s = osm_gps_map_map_redraw_idle s"
proof (induction n)
  case 0
  show ?case by simp
next
  case (Suc n)
  have "idle_map_redraw (osm_gps_map_map_redraw_idle s) \<noteq> 0"
    using assms by (simp add: redraw_idle_schedules)
  then have "osm_gps_map_map_redraw_idle (osm_gps_map_map_redraw_idle s) = osm_gps_map_map_redraw_idle s"
    by (rule redraw_idle_pending)
  with Suc show ?case by simp
qed

lemma g_main_dispatch_called:
  "fst (g_main_dispatch cv pending s) = map snd pending"
  by (induction cv pending s rule: g_main_dispatch.induct) (simp_all add: split_beta)

lemma map_redraw_idle_sources:
  "idle_sources (osm_gps_map_map_redraw cv s) = idle_sources s"
proof (cases "pixmap s = None \<or> any_layer_busy (layers s) \<or> is_dragging s")
  case True
  then show ?thesis by (simp add: map_redraw_skips)
next
  case False
  then obtain cr where cr: "pixmap s = Some cr" by auto
  from False have "\<not> any_layer_busy (layers s)" and "\<not> is_dragging s" by simp_all
  from map_redraw_proceeds [OF cr this, of cv] show ?thesis by auto
qed

lemma map_redraw_idle_map_redraw:
  "idle_map_redraw (osm_gps_map_map_redraw cv s) = 0"
proof (cases "pixmap s = None \<or> any_layer_busy (layers s) \<or> is_dragging s")
  case True
  then show ?thesis by (simp add: map_redraw_skips)
next
  case False
  then obtain cr where cr: "pixmap s = Some cr" by auto
  from False have "\<not> any_layer_busy (layers s)" and "\<not> is_dragging s" by simp_all
  from map_redraw_proceeds [OF cr this, of cv] show ?thesis by auto
qed

lemma invoke_idle_sources:
  "idle_sources (invoke_idle cv cb s) = idle_sources s"
  by (cases cb) (simp_all add: map_redraw_idle_sources osm_gps_map_idle_expose_def host_def)

lemma invoke_idle_map_redraw:
  "idle_map_redraw (invoke_idle cv cb s) = (if cb = MapRedraw then 0 else idle_map_redraw s)"
  by (cases cb) (simp_all add: map_redraw_idle_map_redraw osm_gps_map_idle_expose_def host_def)

lemma g_main_dispatch_sources:
  "idle_sources (snd (g_main_dispatch cv pending s)) =
     filter (\<lambda>src. fst src \<notin> fst ` set pending) (idle_sources s)"
proof (induction cv pending s rule: g_main_dispatch.induct)
  case (1 cv s)
  show ?case by simp
next
  case (2 cv i cb pending s)
  then show ?case
    by (simp add: split_beta g_source_destroy_def invoke_idle_sources)
qed

lemma g_main_dispatch_idle_map_redraw:
  "idle_map_redraw (snd (g_main_dispatch cv pending s)) =
     (if MapRedraw \<in> snd ` set pending then 0 else idle_map_redraw s)"
proof (induction cv pending s rule: g_main_dispatch.induct)
  case (1 cv s)
  show ?case by simp
next
  case (2 cv i cb pending s)
  then show ?case
    by (auto simp add: split_beta g_source_destroy_def invoke_idle_map_redraw
        map_redraw_idle_map_redraw)
qed

lemma g_main_context_iteration_sources:
  "idle_sources (snd (g_main_context_iteration cv s)) = []"
  by (simp add: g_main_context_iteration_def g_main_dispatch_sources filter_empty_conv)

text \<open>
  C4. From every map state with no deferred redraw pending (idle_map_redraw is 0 and no
  redraw source is among the pending idle sources), any number n > 0 of consecutive calls
  of \<open>osm_gps_map_map_redraw_idle\<close> gives the same state as one call and leaves exactly
  one redraw source pending; the next turn of the main loop invokes
  \<open>osm_gps_map_map_redraw\<close> exactly once, and after it no source is pending and
  idle_map_redraw is 0 again. Five calls are the case n = 5.
\<close>

theorem redraw_idle_coalesces:
  assumes "idle_map_redraw s = 0"
    and "MapRedraw \<notin> snd ` set (idle_sources s)"
    and "0 < n"
  shows "(osm_gps_map_map_redraw_idle ^^ n) s = osm_gps_map_map_redraw_idle s
       \<and> length (filter (\<lambda>src. snd src = MapRedraw)
                   (idle_sources ((osm_gps_map_map_redraw_idle ^^ n) s))) = 1
       \<and> length (filter (\<lambda>cb. cb = MapRedraw)
                   (fst (g_main_context_iteration cv ((osm_gps_map_map_redraw_idle ^^ n) s)))) = 1
       \<and> idle_sources (snd (g_main_context_iteration cv ((osm_gps_map_map_redraw_idle ^^ n) s))) = []
       \<and> idle_map_redraw (snd (g_main_context_iteration cv ((osm_gps_map_map_redraw_idle ^^ n) s))) = 0"
proof -
  from \<open>0 < n\<close> obtain m where n: "n = Suc m" by (cases n) auto
  have rep: "(osm_gps_map_map_redraw_idle ^^ n) s = osm_gps_map_map_redraw_idle s"
    unfolding n using assms(1) by (rule redraw_idle_repeated)
  have none: "filter (\<lambda>src. snd src = MapRedraw) (idle_sources s) = []"
    using assms(2) by (force simp add: filter_empty_conv)
  have one: "length (filter (\<lambda>src. snd src = MapRedraw)
                   (idle_sources (osm_gps_map_map_redraw_idle s))) = 1"
    using assms(1) none by (simp add: redraw_idle_schedules)
  have "fst (g_main_context_iteration cv (osm_gps_map_map_redraw_idle s)) =
          map snd (idle_sources (osm_gps_map_map_redraw_idle s))"
    by (simp add: g_main_context_iteration_def g_main_dispatch_called)
  then have called: "length (filter (\<lambda>cb. cb = MapRedraw)
                   (fst (g_main_context_iteration cv (osm_gps_map_map_redraw_idle s)))) = 1"
    using one by (simp add: filter_map comp_def)
  have pending: "MapRedraw \<in> snd ` set (idle_sources (osm_gps_map_map_redraw_idle s))"
    using assms(1) by (simp add: redraw_idle_schedules)
  have reset: "idle_map_redraw (snd (g_main_context_iteration cv (osm_gps_map_map_redraw_idle s))) = 0"
    using pending by (simp add: g_main_context_iteration_def g_main_dispatch_idle_map_redraw)
  from rep one called reset show ?thesis
    by (simp add: g_main_context_iteration_sources)
qed

theorem redraw_idle_coalesces_witness:
  "(osm_gps_map_map_redraw_idle ^^ 5) map_800x600 = osm_gps_map_map_redraw_idle map_800x600
   \<and> idle_sources ((osm_gps_map_map_redraw_idle ^^ 5) map_800x600) = [(1, MapRedraw)]
   \<and> fst (g_main_context_iteration unit_converter ((osm_gps_map_map_redraw_idle ^^ 5) map_800x600))
       = [MapRedraw]
   \<and> idle_sources (snd (g_main_context_iteration unit_converter
         ((osm_gps_map_map_redraw_idle ^^ 5) map_800x600))) = []"
proof -
  have a: "idle_map_redraw map_800x600 = 0" by (simp add: map_800x600_eq)
  have b: "MapRedraw \<notin> snd ` set (idle_sources map_800x600)" by (simp add: map_800x600_eq)
  have c: "(0::nat) < 5" by simp
  have d: "idle_sources (osm_gps_map_map_redraw_idle map_800x600) = [(1, MapRedraw)]"
    by (simp add: redraw_idle_schedules [OF a]) (simp add: map_800x600_eq)
  note t = redraw_idle_coalesces [OF a b c, of unit_converter]
  from t have rep: "(osm_gps_map_map_redraw_idle ^^ 5) map_800x600 = osm_gps_map_map_redraw_idle map_800x600"
    by blast
  from d have src: "idle_sources ((osm_gps_map_map_redraw_idle ^^ 5) map_800x600) = [(1, MapRedraw)]"
    by (simp only: rep)
  have called: "fst (g_main_context_iteration unit_converter ((osm_gps_map_map_redraw_idle ^^ 5) map_800x600))
       = [MapRedraw]"
    by (simp add: g_main_context_iteration_def g_main_dispatch_called src)
  from t have empty: "idle_sources (snd (g_main_context_iteration unit_converter
         ((osm_gps_map_map_redraw_idle ^^ 5) map_800x600))) = []"
    by blast
  from rep src called empty show ?thesis by blast
qed

subsection \<open>32-bit arithmetic\<close>

lemma gint_id: "- 2147483648 \<le> x \<Longrightarrow> x \<le> 2147483647 \<Longrightarrow> gint x = x"
  by (simp add: gint_def)

lemma square_bound:
  assumes "\<bar>a :: int\<bar> \<le> 32767"
  shows "0 \<le> a * a" and "a * a \<le> 1073676289"
proof -
  show "0 \<le> a * a" by (rule zero_le_square)
  have "\<bar>a\<bar> * \<bar>a\<bar> \<le> 32767 * 32767"
    using assms by (intro mult_mono) simp_all
  then show "a * a \<le> 1073676289" by (simp add: abs_mult_self_eq)
qed

lemma gint_threshold_test:
  assumes "\<bar>a :: int\<bar> \<le> 32767" and "\<bar>b :: int\<bar> \<le> 32767"
  shows "gint (gint (gint a * gint a) + gint (gint b * gint b)) = a * a + b * b"
    and "gint a = a" and "gint b = b"
proof -
  show ga: "gint a = a" using assms(1) by (intro gint_id) simp_all
  show gb: "gint b = b" using assms(2) by (intro gint_id) simp_all
  note A = square_bound [OF assms(1)]
  note B = square_bound [OF assms(2)]
  have sa: "gint (a * a) = a * a"
    using A by (intro gint_id) linarith+
  have sb: "gint (b * b) = b * b"
    using B by (intro gint_id) linarith+
  have "gint (a * a + b * b) = a * a + b * b"
    using A B by (intro gint_id) linarith+
  then show "gint (gint (gint a * gint a) + gint (gint b * gint b)) = a * a + b * b"
    by (simp add: ga gb sa sb)
qed

subsection \<open>Drag state machine\<close>

lemma motion_keeps_dragging:
  "is_dragging s \<Longrightarrow> is_dragging (osm_gps_map_motion_notify cv s event)"
  by (simp add: osm_gps_map_motion_notify_def osm_gps_map_map_redraw_idle_def g_idle_add_def
      g_object_set_def host_def Let_def)

lemma drag_starts_cons:
  "drag_starts (a # motion_trace cv b events) =
     (if \<not> is_dragging a \<and> is_dragging b then 1 else 0) + drag_starts (motion_trace cv b events)"
  by (cases events) simp_all

lemma drag_starts_dragging:
  "is_dragging s \<Longrightarrow> drag_starts (motion_trace cv s events) = 0"
proof (induction events arbitrary: s)
  case Nil
  show ?case by simp
next
  case (Cons event events)
  from Cons.prems have "is_dragging (osm_gps_map_motion_notify cv s event)"
    by (rule motion_keeps_dragging)
  then have "drag_starts (motion_trace cv (osm_gps_map_motion_notify cv s event) events) = 0"
    by (rule Cons.IH)
  with Cons.prems show ?case by (simp add: drag_starts_cons)
qed

lemma button_press_arms:
  assumes "\<not> press_consumed (layers s)" and "\<not> is_dragging s"
  shows "ARMED (osm_gps_map_button_press s event)"
    and "drag_start_mouse_x (osm_gps_map_button_press s event) = button_x event"
    and "drag_start_mouse_y (osm_gps_map_button_press s event) = button_y event"
    and "drag_limit (osm_gps_map_button_press s event) = drag_limit s"
    and "is_dragging_point (osm_gps_map_button_press s event) = is_dragging_point s"
  using assms by (simp_all add: osm_gps_map_button_press_def ARMED_def)

text \<open>No handler sets is_dragging_point, and a constructed map has it clear.\<close>

lemma dragging_point_never_set:
  "is_dragging_point (osm_gps_map_button_press s press) = is_dragging_point s"
  "is_dragging_point (osm_gps_map_motion_notify cv s event) = is_dragging_point s"
  "is_dragging_point (osm_gps_map_button_release cv s release) = is_dragging_point s"
  "\<not> is_dragging_point (osm_gps_map_constructor cv zero invalid ps)"
proof -
  show "is_dragging_point (osm_gps_map_button_press s press) = is_dragging_point s"
    by (simp add: osm_gps_map_button_press_def)
  show "is_dragging_point (osm_gps_map_motion_notify cv s event) = is_dragging_point s"
    by (simp add: osm_gps_map_motion_notify_def osm_gps_map_map_redraw_idle_def g_idle_add_def
        g_object_set_def host_def Let_def)
  show "is_dragging_point (osm_gps_map_button_release cv s release) = is_dragging_point s"
    by (simp add: osm_gps_map_button_release_def osm_gps_map_map_redraw_idle_def g_idle_add_def
        center_coord_update_def host_def Let_def)
  have p: "\<And>s p. is_dragging_point (osm_gps_map_set_property cv s p) = is_dragging_point s"
  proof -
    fix s :: "'a OsmGpsMap" and p
    show "is_dragging_point (osm_gps_map_set_property cv s p) = is_dragging_point s"
      by (cases p) (simp_all add: center_coord_update_def host_def Let_def)
  qed
  have f: "\<And>s. is_dragging_point (foldl (osm_gps_map_set_property cv) s ps) = is_dragging_point s"
    by (induction ps) (simp_all add: p)
  have nc: "\<not> is_constructed (foldl (osm_gps_map_set_property cv) (osm_gps_map_init zero invalid) ps)"
    by (simp add: set_properties_not_constructed) (simp add: osm_gps_map_init_def)
  show "\<not> is_dragging_point (osm_gps_map_constructor cv zero invalid ps)"
    using nc by (simp add: osm_gps_map_constructor_def osm_gps_map_setup_def Let_def f)
      (simp add: osm_gps_map_init_def)
qed

lemma motion_below_threshold:
  assumes "ARMED s" and "\<not> is_dragging_point s" and "drag_limit s = 10"
    and "near_press s event" and "displacement2 s event < 10 * 10"
  shows "osm_gps_map_motion_notify cv s event = s"
proof -
  have t: "gint (gint (gint (pointer_x event - drag_start_mouse_x s) * gint (pointer_x event - drag_start_mouse_x s)) +
                 gint (gint (pointer_y event - drag_start_mouse_y s) * gint (pointer_y event - drag_start_mouse_y s)))
           = displacement2 s event"
    using assms(4) by (simp add: near_press_def displacement2_def gint_threshold_test(1))
  have l: "gint (drag_limit s * drag_limit s) = 100"
    using assms(3) by (simp add: gint_def)
  from assms(1,2,5) t l show ?thesis
    by (simp add: osm_gps_map_motion_notify_def ARMED_def pointer_x_def pointer_y_def Let_def)
qed

lemma motion_without_button1:
  assumes "\<not> is_dragging_point s" and "\<not> pointer_button1 event"
  shows "osm_gps_map_motion_notify cv s event = s"
  using assms
  by (simp add: osm_gps_map_motion_notify_def pointer_button1_def Let_def)

lemma motion_crosses_threshold:
  assumes "ARMED s" and "\<not> is_dragging_point s" and "drag_limit s = 10"
    and "near_press s event" and "pointer_button1 event"
    and "10 * 10 \<le> displacement2 s event"
  shows "osm_gps_map_motion_notify cv s event =
     (let s5 = s\<lparr>drag_counter := 1, is_dragging := True, map_auto_center_enabled := False,
                 host_log := (if map_auto_center_enabled s then host_log s @ [Notify ''auto-center'']
                              else host_log s),
                 drag_mouse_dx := pointer_x event - drag_start_mouse_x s,
                 drag_mouse_dy := pointer_y event - drag_start_mouse_y s\<rparr>
      in if drag_expose_source s = 0
         then s5\<lparr>idle_sources := idle_sources s @ [(Suc (last_source_id s), IdleExpose)],
                 last_source_id := Suc (last_source_id s),
                 drag_expose_source := Suc (last_source_id s)\<rparr>
         else s5)"
proof -
  have t: "gint (gint (gint (pointer_x event - drag_start_mouse_x s) * gint (pointer_x event - drag_start_mouse_x s)) +
                 gint (gint (pointer_y event - drag_start_mouse_y s) * gint (pointer_y event - drag_start_mouse_y s)))
           = displacement2 s event"
    using assms(4) by (simp add: near_press_def displacement2_def gint_threshold_test(1))
  have gx: "gint (pointer_x event - drag_start_mouse_x s) = pointer_x event - drag_start_mouse_x s"
    and gy: "gint (pointer_y event - drag_start_mouse_y s) = pointer_y event - drag_start_mouse_y s"
    using assms(4)
      gint_threshold_test(2,3) [of "pointer_x event - drag_start_mouse_x s" "pointer_y event - drag_start_mouse_y s"]
    by (simp_all add: near_press_def)
  have l: "gint (drag_limit s * drag_limit s) = 100"
    using assms(3) by (simp add: gint_def)
  have c: "gint 1 = 1" by (simp add: gint_def)
  have step: "osm_gps_map_motion_notify cv s event =
     (let s5 = s\<lparr>drag_counter := 1, is_dragging := True, map_auto_center_enabled := False,
                 host_log := (if map_auto_center_enabled s then host_log s @ [Notify ''auto-center'']
                              else host_log s),
                 drag_mouse_dx := gint (pointer_x event - drag_start_mouse_x s),
                 drag_mouse_dy := gint (pointer_y event - drag_start_mouse_y s)\<rparr>
      in if drag_expose_source s = 0
         then s5\<lparr>idle_sources := idle_sources s @ [(Suc (last_source_id s), IdleExpose)],
                 last_source_id := Suc (last_source_id s),
                 drag_expose_source := Suc (last_source_id s)\<rparr>
         else s5)"
    using assms(1,2,5,6) t l c
    by (simp add: osm_gps_map_motion_notify_def ARMED_def pointer_x_def
      pointer_y_def pointer_button1_def g_object_set_def host_def g_idle_add_def Let_def)
  show ?thesis unfolding step gx gy ..
qed


lemma motion_crosses_fields:
  assumes "ARMED s" and "\<not> is_dragging_point s" and "drag_limit s = 10"
    and "near_press s event" and "pointer_button1 event"
    and "10 * 10 \<le> displacement2 s event"
  shows "DRAGGING (osm_gps_map_motion_notify cv s event)"
    and "drag_counter (osm_gps_map_motion_notify cv s event) = 1"
    and "\<not> map_auto_center_enabled (osm_gps_map_motion_notify cv s event)"
    and "drag_mouse_dx (osm_gps_map_motion_notify cv s event) = pointer_x event - drag_start_mouse_x s"
    and "drag_mouse_dy (osm_gps_map_motion_notify cv s event) = pointer_y event - drag_start_mouse_y s"
    and "map_x (osm_gps_map_motion_notify cv s event) = map_x s"
    and "map_y (osm_gps_map_motion_notify cv s event) = map_y s"
    and "is_dragging (osm_gps_map_motion_notify cv s event)"
  using assms(1)
  by (simp_all add: motion_crosses_threshold [OF assms] DRAGGING_def ARMED_def Let_def)

lemma drag_starts_armed:
  assumes "ARMED s" and "\<not> is_dragging_point s" and "drag_limit s = 10"
    and "\<forall>event \<in> set events. near_press s event"
  shows "drag_starts (motion_trace cv s events) =
     (if \<exists>event \<in> set events. pointer_button1 event \<and> 10 * 10 \<le> displacement2 s event
      then 1 else 0)"
  using assms(4)
proof (induction events)
  case Nil
  show ?case by simp
next
  case (Cons event events)
  from Cons.prems have near: "near_press s event"
    and rest: "\<forall>event \<in> set events. near_press s event" by simp_all
  note IH = Cons.IH [OF rest]
  show ?case
  proof (cases "pointer_button1 event \<and> 10 * 10 \<le> displacement2 s event")
    case True
    then have d: "is_dragging (osm_gps_map_motion_notify cv s event)"
      using assms(1,2,3) near motion_crosses_fields(8) by blast
    have nd: "\<not> is_dragging s" using assms(1) by (simp add: ARMED_def)
    from d have "drag_starts (motion_trace cv (osm_gps_map_motion_notify cv s event) events) = 0"
      by (rule drag_starts_dragging)
    with True d nd show ?thesis by (simp add: drag_starts_cons)
  next
    case False
    have same: "osm_gps_map_motion_notify cv s event = s"
    proof (cases "pointer_button1 event")
      case True
      with False have "displacement2 s event < 10 * 10" by simp
      with assms(1,2,3) near show ?thesis by (rule motion_below_threshold)
    next
      case False
      with assms(2) show ?thesis by (rule motion_without_button1)
    qed
    from False same IH show ?thesis by (simp add: drag_starts_cons)
  qed
qed

text \<open>
  C2, as amended. With drag_limit = 10, in the ARMED state (button down, not dragging,
  drag counter 0; no point is being dragged), which is the state after a button press
  that no layer consumes, and for pointer positions within 32767 pixels of the press
  origin on each axis:
  a motion event whose squared displacement from the press origin is below 10 squared
  leaves the whole state as it is (still ARMED; map_x, map_y and the drag offset are not
  touched), so a displacement of 9 px does not start a drag;
  a motion event without button 1 in its state leaves the state as it is, whatever its
  displacement;
  a motion event with button 1 held whose squared displacement reaches 10 squared (11 px)
  enters DRAGGING with counter 1, disables auto-center, records the displacement in
  drag_mouse_dx and drag_mouse_dy and leaves map_x and map_y alone;
  and over any sequence of such motion events the step from not dragging to dragging
  happens exactly once if some event of the sequence reaches the threshold with button 1
  held, and never otherwise.
\<close>

theorem drag_threshold:
  assumes "ARMED s" and "\<not> is_dragging_point s" and "drag_limit s = 10"
  shows "(near_press s event \<and> displacement2 s event < 10 * 10 \<longrightarrow>
            osm_gps_map_motion_notify cv s event = s)
       \<and> (\<not> pointer_button1 event \<longrightarrow> osm_gps_map_motion_notify cv s event = s)
       \<and> (near_press s event \<and> pointer_button1 event \<and> 10 * 10 \<le> displacement2 s event \<longrightarrow>
            DRAGGING (osm_gps_map_motion_notify cv s event)
            \<and> drag_counter (osm_gps_map_motion_notify cv s event) = 1
            \<and> \<not> map_auto_center_enabled (osm_gps_map_motion_notify cv s event)
            \<and> drag_mouse_dx (osm_gps_map_motion_notify cv s event) = pointer_x event - drag_start_mouse_x s
            \<and> drag_mouse_dy (osm_gps_map_motion_notify cv s event) = pointer_y event - drag_start_mouse_y s
            \<and> map_x (osm_gps_map_motion_notify cv s event) = map_x s
            \<and> map_y (osm_gps_map_motion_notify cv s event) = map_y s)
       \<and> ((\<forall>event \<in> set events. near_press s event) \<longrightarrow>
            drag_starts (motion_trace cv s events) =
              (if \<exists>event \<in> set events. pointer_button1 event \<and> 10 * 10 \<le> displacement2 s event
               then 1 else 0))"
proof -
  have a: "near_press s event \<and> displacement2 s event < 10 * 10 \<longrightarrow>
            osm_gps_map_motion_notify cv s event = s"
    using assms motion_below_threshold by blast
  have n: "\<not> pointer_button1 event \<longrightarrow> osm_gps_map_motion_notify cv s event = s"
    using assms(2) motion_without_button1 by blast
  have b: "near_press s event \<and> pointer_button1 event \<and> 10 * 10 \<le> displacement2 s event \<longrightarrow>
            DRAGGING (osm_gps_map_motion_notify cv s event)
            \<and> drag_counter (osm_gps_map_motion_notify cv s event) = 1
            \<and> \<not> map_auto_center_enabled (osm_gps_map_motion_notify cv s event)
            \<and> drag_mouse_dx (osm_gps_map_motion_notify cv s event) = pointer_x event - drag_start_mouse_x s
            \<and> drag_mouse_dy (osm_gps_map_motion_notify cv s event) = pointer_y event - drag_start_mouse_y s
            \<and> map_x (osm_gps_map_motion_notify cv s event) = map_x s
            \<and> map_y (osm_gps_map_motion_notify cv s event) = map_y s"
    using assms motion_crosses_fields [of s event cv] by blast
  have c: "(\<forall>event \<in> set events. near_press s event) \<longrightarrow>
            drag_starts (motion_trace cv s events) =
              (if \<exists>event \<in> set events. pointer_button1 event \<and> 10 * 10 \<le> displacement2 s event
               then 1 else 0)"
    using drag_starts_armed [OF assms, of events cv] by blast
  from a n b c show ?thesis by blast
qed

theorem drag_threshold_witness:
  "osm_gps_map_motion_notify unit_converter pressed_map (motion_to 109 100) = pressed_map
   \<and> osm_gps_map_motion_notify unit_converter pressed_map (motion_button3_to 111 100) = pressed_map
   \<and> DRAGGING (osm_gps_map_motion_notify unit_converter pressed_map (motion_to 111 100))
   \<and> \<not> map_auto_center_enabled (osm_gps_map_motion_notify unit_converter pressed_map (motion_to 111 100))
   \<and> drag_mouse_dx (osm_gps_map_motion_notify unit_converter pressed_map (motion_to 111 100)) = 11
   \<and> drag_mouse_dy (osm_gps_map_motion_notify unit_converter pressed_map (motion_to 111 100)) = 0
   \<and> drag_starts (motion_trace unit_converter pressed_map
        [motion_to 105 100, motion_to 109 100, motion_to 111 100, motion_to 130 100, motion_to 103 100]) = 1
   \<and> drag_starts (motion_trace unit_converter pressed_map
        [motion_to 105 100, motion_to 109 100, motion_to 100 109]) = 0"
  using
    drag_threshold [OF pressed_map_fields(1) pressed_map_fields(2) pressed_map_fields(3),
      of "motion_to 109 100" unit_converter
      "[motion_to 105 100, motion_to 109 100, motion_to 111 100, motion_to 130 100, motion_to 103 100]"]
    drag_threshold [OF pressed_map_fields(1) pressed_map_fields(2) pressed_map_fields(3),
      of "motion_to 111 100" unit_converter
      "[motion_to 105 100, motion_to 109 100, motion_to 100 109]"]
    drag_threshold [OF pressed_map_fields(1) pressed_map_fields(2) pressed_map_fields(3),
      of "motion_button3_to 111 100" unit_converter "[]"]
  by (simp add: pressed_map_fields displacement2_def near_press_def pointer_x_def pointer_y_def
      pointer_button1_def motion_to_def motion_button3_to_def)

text \<open>Beyond that range the test wraps: a motion 65536 pixels to the right of the press
  squares to 2^32, which is 0 in a gint, and the state is left as it is.\<close>

lemma motion_far_wraps:
  "osm_gps_map_motion_notify unit_converter pressed_map (motion_to 65636 100) = pressed_map"
proof -
  have w: "gint 4294967296 = 0" by (simp add: gint_def)
  show ?thesis
    using pressed_map_fields
    by (simp add: osm_gps_map_motion_notify_def ARMED_def motion_to_def gint_id w Let_def)
qed

text \<open>
  C2, as stated, fails: a motion reaching 11 px does not always enter DRAGGING. The
  button press handler arms on any button; after the press at (100, 100) a motion to
  (111, 100) with button 3 held and button 1 not (squared displacement 121) leaves the
  state as it is, and neither it nor a further motion to (150, 100) starts a drag.
\<close>

theorem drag_without_button1_counterexample:
  "ARMED pressed_map \<and> drag_limit pressed_map = 10
   \<and> displacement2 pressed_map (motion_button3_to 111 100) = 11 * 11
   \<and> osm_gps_map_motion_notify unit_converter pressed_map (motion_button3_to 111 100) = pressed_map
   \<and> \<not> DRAGGING (osm_gps_map_motion_notify unit_converter pressed_map (motion_button3_to 111 100))
   \<and> drag_starts (motion_trace unit_converter pressed_map
        [motion_button3_to 111 100, motion_button3_to 150 100]) = 0"
proof -
  have np: "\<not> is_dragging_point pressed_map" by (rule pressed_map_fields(2))
  have same: "\<And>x y. osm_gps_map_motion_notify unit_converter pressed_map (motion_button3_to x y) = pressed_map"
    using np by (intro motion_without_button1) (simp_all add: pointer_button1_def motion_button3_to_def)
  have nd: "\<not> is_dragging pressed_map" "\<not> DRAGGING pressed_map"
    using pressed_map_fields(1) by (simp_all add: ARMED_def DRAGGING_def)
  have d: "displacement2 pressed_map (motion_button3_to 111 100) = 11 * 11"
    by (simp add: pressed_map_fields displacement2_def pointer_x_def pointer_y_def
        motion_button3_to_def)
  show ?thesis
    using nd d by (simp add: same pressed_map_fields)
qed

subsection \<open>Marker store\<close>












subsection \<open>Coordinate conversion and what is painted\<close>














end
